theory Spec2Isabelle
  imports Main
begin

section \<open>Values, exceptions and references\<close>

text \<open>
  Objects that are shared and mutated (domain events, the arrays that hold them, buses and
  loggers) live in a store and are named by references; \<open>===\<close> on objects is equality of
  references.
\<close>

type_synonym ref = nat

text \<open>The exception classes of \<open>@luccazx12/exceptions-base\<close> that the sources construct,
  each with its message. \<open>DomainException\<close> stands for any other \<open>ExceptionBase\<close> a subclass
  hook passes to \<open>addError\<close>.\<close>

datatype ExceptionBase =
    ArgumentNotProvidedException string
  | ArgumentInvalidException string
  | ArgumentOutOfRangeException string
  | DomainException string

text \<open>What a call can raise: \<open>throw new X(..)\<close>, \<open>throw this.errors\<close> (the array itself is
  the thrown value), the runtime's \<open>TypeError\<close> (a property read on \<open>null\<close>/\<open>undefined\<close>, a
  call of a method that is not there), and whatever a collaborator outside the sources
  (subclass hook, event bus) raises or rejects with.\<close>

datatype thrown =
    ThrowException ExceptionBase
  | ThrowErrors "ExceptionBase list"
  | TypeError
  | Rejected string

text \<open>Runtime values. An object literal is the list of its own enumerable properties in
  insertion order (keys distinct). A value object is itself a value, so that properties can
  nest value objects: it carries its \<open>errors\<close> array, its \<open>props\<close>, and whether
  \<open>addValidValueObjectAttributes\<close> has attached \<open>equals\<close> and \<open>unpack\<close> to it.\<close>

datatype jsval =
    JUndefined
  | JNull
  | JBool bool
  | JNum int
  | JStr string
  | JObj "(string \<times> jsval) list"
  | JValueObject ValueObject
and ValueObject =
    ValueObject (vo_errors: "ExceptionBase list") (vo_props: jsval) (vo_armed: bool)

text \<open>An optional object argument (\<open>object?: T\<close>).\<close>

datatype 'a nullable = IsUndefined | IsNull | IsObject 'a

text \<open>Property read \<open>o.k\<close>, for the keys the sources read (\<open>value\<close>, \<open>metadata\<close>, \<open>aggregateId\<close>):
  a \<open>TypeError\<close> on \<open>undefined\<close> and \<open>null\<close>; on an object literal the value under the key,
  \<open>undefined\<close> when it has none; \<open>undefined\<close> on a primitive and on a value object, which have no
  such property.\<close>

fun getProp :: "jsval \<Rightarrow> string \<Rightarrow> thrown + jsval" where
  "getProp JUndefined k = Inl TypeError"
| "getProp JNull k = Inl TypeError"
| "getProp (JObj kvs) k = Inr (case map_of kvs k of None \<Rightarrow> JUndefined | Some v \<Rightarrow> v)"
| "getProp v k = Inr JUndefined"

text \<open>Modelled from the spec: \<open>Guard.isEmpty\<close> of the package \<open>@luccazx12/guard\<close>, which is not
  among the sources. The spec calls empty: missing input (\<open>undefined\<close>, \<open>null\<close>), the empty
  string, and an object without properties. Numbers, booleans and class instances are not
  empty.\<close>

fun Guard_isEmpty :: "jsval \<Rightarrow> bool" where
  "Guard_isEmpty JUndefined = True"
| "Guard_isEmpty JNull = True"
| "Guard_isEmpty (JBool b) = False"
| "Guard_isEmpty (JNum n) = False"
| "Guard_isEmpty (JStr s) = (s = [])"
| "Guard_isEmpty (JObj kvs) = (kvs = [])"
| "Guard_isEmpty (JValueObject vo) = False"

section \<open>Value objects (value-object.base.ts)\<close>

text \<open>\<open>Object.prototype.hasOwnProperty.call(obj, 'value')\<close>: raises on \<open>null\<close> and
  \<open>undefined\<close>; a value object's own properties are \<open>errors\<close> and \<open>props\<close> (and the attached
  methods), never \<open>value\<close>.\<close>

fun isDomainPrimitive :: "jsval \<Rightarrow> thrown + bool" where
  "isDomainPrimitive JUndefined = Inl TypeError"
| "isDomainPrimitive JNull = Inl TypeError"
| "isDomainPrimitive (JObj kvs) = Inr (''value'' \<in> set (map fst kvs))"
| "isDomainPrimitive v = Inr False"

definition vo_addError :: "ValueObject \<Rightarrow> ExceptionBase \<Rightarrow> ValueObject" where
  "vo_addError this e = ValueObject (vo_errors this @ [e]) (vo_props this) (vo_armed this)"

text \<open>\<open>checkIfEmpty\<close>: the disjunction short-circuits, so \<open>isDomainPrimitive\<close> is only
  reached for a non-empty argument.\<close>

definition checkIfEmpty :: "ValueObject \<Rightarrow> jsval \<Rightarrow> thrown + ValueObject" where
  "checkIfEmpty this p =
     (if Guard_isEmpty p
      then Inr (vo_addError this (ArgumentNotProvidedException ''Properties cannot be empty''))
      else case isDomainPrimitive p of
             Inl t \<Rightarrow> Inl t
           | Inr False \<Rightarrow> Inr this
           | Inr True \<Rightarrow>
               (case getProp p ''value'' of
                  Inl t \<Rightarrow> Inl t
                | Inr v \<Rightarrow>
                    if Guard_isEmpty v
                    then Inr (vo_addError this
                                (ArgumentNotProvidedException ''Properties cannot be empty''))
                    else Inr this))"

text \<open>The constructor. The abstract \<open>validate\<close> hook of the subclass is a parameter: it
  either raises or returns the errors it hands to \<open>addError\<close>, in order (\<open>errors\<close> is
  private, so adding is all a subclass can do to it).\<close>

definition ValueObject_new ::
  "(jsval \<Rightarrow> thrown + ExceptionBase list) \<Rightarrow> jsval \<Rightarrow> thrown + ValueObject" where
  "ValueObject_new validate p =
     (case checkIfEmpty (ValueObject [] JUndefined False) p of
        Inl t \<Rightarrow> Inl t
      | Inr this \<Rightarrow>
          (case validate p of
             Inl t \<Rightarrow> Inl t
           | Inr errs \<Rightarrow> Inr (ValueObject (vo_errors this @ errs) p False)))"

text \<open>\<open>internalUnpack\<close>. \<open>convertPropsToObject\<close> (utils/convert-props-to-object.util) is not
  among the sources and is a parameter; \<open>Object.freeze\<close> returns its argument.\<close>

definition internalUnpack :: "(jsval \<Rightarrow> jsval) \<Rightarrow> ValueObject \<Rightarrow> thrown + jsval" where
  "internalUnpack convertPropsToObject this =
     (case isDomainPrimitive (vo_props this) of
        Inl t \<Rightarrow> Inl t
      | Inr True \<Rightarrow> getProp (vo_props this) ''value''
      | Inr False \<Rightarrow> Inr (convertPropsToObject (vo_props this)))"

definition forceUnpack :: "(jsval \<Rightarrow> jsval) \<Rightarrow> ValueObject \<Rightarrow> thrown + jsval" where
  "forceUnpack convertPropsToObject this =
     (if length (vo_errors this) > 0 then Inl (ThrowErrors (vo_errors this))
      else internalUnpack convertPropsToObject this)"

definition addValidValueObjectAttributes :: "ValueObject \<Rightarrow> ValueObject" where
  "addValidValueObjectAttributes this = ValueObject (vo_errors this) (vo_props this) True"

text \<open>\<open>isValid\<close> returns its answer and the object as it leaves it.\<close>

definition vo_isValid :: "ValueObject \<Rightarrow> bool \<times> ValueObject" where
  "vo_isValid this =
     (if length (vo_errors this) > 0 then (False, this)
      else (True, addValidValueObjectAttributes this))"

section \<open>Entities (class \<open>Entity\<close>, unnamed/part_005)\<close>

definition MAX_PROPS :: nat where
  "MAX_PROPS = 50"

text \<open>An entity. \<open>entity_id\<close> is the private \<open>_id\<close>: a reference to an \<open>Id\<close> object.
  \<open>createdAt\<close> and \<open>updatedAt\<close> are the private \<open>_createdAt\<close>, \<open>_updatedAt\<close> (a \<open>Date\<close> as its
  time value). \<open>validEntityAttributes\<close> tells whether \<open>addValidEntityAttributes\<close> has attached
  \<open>equals\<close>, \<open>getPropsCopy\<close> and \<open>toObject\<close>. \<open>constructor_name\<close> is \<open>this.constructor.name\<close>.\<close>

record Entity =
  constructor_name :: string
  errors :: "ExceptionBase list"
  entity_id :: ref
  createdAt :: int
  updatedAt :: int
  props :: jsval
  validEntityAttributes :: bool

record CreateEntityProps =
  create_id :: ref
  create_props :: jsval
  create_createdAt :: "int option"
  create_updatedAt :: "int option"

definition addError :: "'a Entity_scheme \<Rightarrow> ExceptionBase \<Rightarrow> 'a Entity_scheme" where
  "addError this e = this\<lparr>errors := errors this @ [e]\<rparr>"

fun typeof :: "jsval \<Rightarrow> string" where
  "typeof JUndefined = ''undefined''"
| "typeof JNull = ''object''"
| "typeof (JBool b) = ''boolean''"
| "typeof (JNum n) = ''number''"
| "typeof (JStr s) = ''string''"
| "typeof (JObj kvs) = ''object''"
| "typeof (JValueObject vo) = ''object''"

text \<open>\<open>Object.keys(x).length\<close>: raises on \<open>null\<close> and \<open>undefined\<close>; a string has one key for
  each index; a value object has its fields \<open>errors\<close> and \<open>props\<close>, and \<open>equals\<close> and \<open>unpack\<close>
  once they are attached.\<close>

fun Object_keys_length :: "jsval \<Rightarrow> thrown + nat" where
  "Object_keys_length JUndefined = Inl TypeError"
| "Object_keys_length JNull = Inl TypeError"
| "Object_keys_length (JBool b) = Inr 0"
| "Object_keys_length (JNum n) = Inr 0"
| "Object_keys_length (JStr s) = Inr (length s)"
| "Object_keys_length (JObj kvs) = Inr (length kvs)"
| "Object_keys_length (JValueObject vo) = Inr (if vo_armed vo then 4 else 2)"

text \<open>\<open>validateProps\<close>: three independent checks, each adding its own kind of error.\<close>

definition validateProps :: "'a Entity_scheme \<Rightarrow> jsval \<Rightarrow> thrown + 'a Entity_scheme" where
  "validateProps this p =
     (let this1 = (if Guard_isEmpty p
                   then addError this
                          (ArgumentNotProvidedException ''Entity props should not be empty'')
                   else this);
          this2 = (if typeof p \<noteq> ''object''
                   then addError this1
                          (ArgumentInvalidException ''Entity props should be an object'')
                   else this1)
      in case Object_keys_length p of
           Inl t \<Rightarrow> Inl t
         | Inr n \<Rightarrow>
             if n > MAX_PROPS
             then Inr (addError this2
                         (ArgumentOutOfRangeException
                            ''Entity props should not have more than 50 properties''))
             else Inr this2)"

text \<open>The constructor. \<open>now\<close> is the value of \<open>new Date()\<close>; a \<open>Date\<close> is truthy, so
  \<open>createdAt || now\<close> is \<open>now\<close> exactly when no date was given. The abstract \<open>validate\<close> hook
  sees the entity and either raises or returns the errors it adds. While \<open>validateProps\<close>
  runs, the dates and \<open>props\<close> are not assigned yet; it reads none of them.\<close>

definition Entity_new ::
  "string \<Rightarrow> (Entity \<Rightarrow> thrown + ExceptionBase list) \<Rightarrow> int \<Rightarrow> CreateEntityProps
     \<Rightarrow> thrown + Entity" where
  "Entity_new cname validate now c =
     (let this0 = \<lparr>constructor_name = cname, errors = [], entity_id = create_id c,
                    createdAt = now, updatedAt = now, props = JUndefined,
                    validEntityAttributes = False\<rparr>
      in case validateProps this0 (create_props c) of
           Inl t \<Rightarrow> Inl t
         | Inr this1 \<Rightarrow>
             (let this2 = this1\<lparr>createdAt := (case create_createdAt c of None \<Rightarrow> now | Some d \<Rightarrow> d),
                                updatedAt := (case create_updatedAt c of None \<Rightarrow> now | Some d \<Rightarrow> d),
                                props := create_props c\<rparr>
              in case validate this2 of
                   Inl t \<Rightarrow> Inl t
                 | Inr errs \<Rightarrow> Inr (this2\<lparr>errors := errors this2 @ errs\<rparr>)))"

definition addValidEntityAttributes :: "'a Entity_scheme \<Rightarrow> 'a Entity_scheme" where
  "addValidEntityAttributes this = this\<lparr>validEntityAttributes := True\<rparr>"

definition isValid :: "'a Entity_scheme \<Rightarrow> bool \<times> 'a Entity_scheme" where
  "isValid this =
     (if length (errors this) > 0 then (False, this)
      else (True, addValidEntityAttributes this))"

definition internalEquals :: "'a Entity_scheme \<Rightarrow> 'b Entity_scheme nullable \<Rightarrow> bool" where
  "internalEquals this object =
     (case object of
        IsNull \<Rightarrow> False
      | IsUndefined \<Rightarrow> False
      | IsObject other \<Rightarrow> entity_id this = entity_id other)"

text \<open>An object literal with a spread: a key that is already there keeps its place and takes
  the new value; a new key goes to the end. Spreading \<open>undefined\<close>, \<open>null\<close>, a number or a
  boolean adds nothing.\<close>

fun setProp :: "(string \<times> jsval) list \<Rightarrow> string \<Rightarrow> jsval \<Rightarrow> (string \<times> jsval) list" where
  "setProp [] k v = [(k, v)]"
| "setProp ((k', v') # kvs) k v =
     (if k' = k then (k, v) # kvs else (k', v') # setProp kvs k v)"

fun ownProps :: "jsval \<Rightarrow> (string \<times> jsval) list" where
  "ownProps (JObj kvs) = kvs"
| "ownProps v = []"

definition spread :: "(string \<times> jsval) list \<Rightarrow> jsval \<Rightarrow> (string \<times> jsval) list" where
  "spread kvs v = foldl (\<lambda>acc (k, x). setProp acc k x) kvs (ownProps v)"

text \<open>\<open>internalGetPropsCopy\<close> and \<open>internalToObject\<close>; \<open>ids\<close> is the store of \<open>Id\<close> objects and
  \<open>convertPropsToObject\<close> the missing utility.\<close>

definition internalGetPropsCopy ::
  "(jsval \<Rightarrow> jsval) \<Rightarrow> (ref \<Rightarrow> ValueObject) \<Rightarrow> 'a Entity_scheme \<Rightarrow> jsval" where
  "internalGetPropsCopy convertPropsToObject ids this =
     convertPropsToObject
       (JObj (spread [(''id'', JValueObject (ids (entity_id this))),
                      (''createdAt'', JNum (createdAt this)),
                      (''updatedAt'', JNum (updatedAt this))] (props this)))"

definition internalToObject ::
  "(jsval \<Rightarrow> jsval) \<Rightarrow> (ref \<Rightarrow> ValueObject) \<Rightarrow> 'a Entity_scheme \<Rightarrow> jsval" where
  "internalToObject convertPropsToObject ids this =
     JObj (spread [(''id'', JValueObject (ids (entity_id this))),
                   (''createdAt'', JNum (createdAt this)),
                   (''updatedAt'', JNum (updatedAt this))]
             (convertPropsToObject (props this)))"

text \<open>What a caller gets from \<open>entity.equals(..)\<close>, \<open>entity.getPropsCopy()\<close> and
  \<open>entity.toObject()\<close>: the bound internal method once it is attached, and before that a
  \<open>TypeError\<close>, since the class itself has no such method.\<close>

definition Entity_equals :: "'a Entity_scheme \<Rightarrow> 'b Entity_scheme nullable \<Rightarrow> thrown + bool" where
  "Entity_equals this object =
     (if validEntityAttributes this then Inr (internalEquals this object) else Inl TypeError)"

definition Entity_getPropsCopy ::
  "(jsval \<Rightarrow> jsval) \<Rightarrow> (ref \<Rightarrow> ValueObject) \<Rightarrow> 'a Entity_scheme \<Rightarrow> thrown + jsval" where
  "Entity_getPropsCopy convertPropsToObject ids this =
     (if validEntityAttributes this
      then Inr (internalGetPropsCopy convertPropsToObject ids this) else Inl TypeError)"

definition Entity_toObject ::
  "(jsval \<Rightarrow> jsval) \<Rightarrow> (ref \<Rightarrow> ValueObject) \<Rightarrow> 'a Entity_scheme \<Rightarrow> thrown + jsval" where
  "Entity_toObject convertPropsToObject ids this =
     (if validEntityAttributes this
      then Inr (internalToObject convertPropsToObject ids this) else Inl TypeError)"

section \<open>Domain events (events/domain-event.base.ts)\<close>

text \<open>A domain event object. \<open>event_id\<close> and \<open>metadata\<close> are the fields the base class
  \<open>Event\<close> of \<open>@luccazx12/eda\<close> sets; \<open>event_class\<close> is the event's own class
  (\<open>constructor.name\<close>) and \<open>event_superclasses\<close> the rest of its prototype chain.\<close>

record DomainEvent =
  event_class :: string
  event_superclasses :: "string list"
  event_id :: string
  metadata :: jsval
  aggregateId :: jsval
  committed :: bool

definition instanceof :: "DomainEvent \<Rightarrow> string \<Rightarrow> bool" where
  "instanceof ev c = (c = event_class ev \<or> c \<in> set (event_superclasses ev))"

text \<open>The constructor: \<open>super({ metadata: props.metadata })\<close> reads a property of \<open>props\<close> before
  the emptiness check; \<open>eid\<close> is the identifier the base class gives the event. Then
  \<open>props.aggregateId.forceUnpack()\<close>, which is a \<open>TypeError\<close> when \<open>aggregateId\<close> is no value
  object.\<close>

definition DomainEvent_new ::
  "(jsval \<Rightarrow> jsval) \<Rightarrow> string \<Rightarrow> string list \<Rightarrow> string \<Rightarrow> jsval \<Rightarrow> thrown + DomainEvent" where
  "DomainEvent_new convertPropsToObject cname supers eid p =
     (case getProp p ''metadata'' of
        Inl t \<Rightarrow> Inl t
      | Inr md \<Rightarrow>
          if Guard_isEmpty p
          then Inl (ThrowException
                      (ArgumentNotProvidedException (cname @ '' props should not be empty'')))
          else (case getProp p ''aggregateId'' of
                  Inl t \<Rightarrow> Inl t
                | Inr (JValueObject vo) \<Rightarrow>
                    (case forceUnpack convertPropsToObject vo of
                       Inl t \<Rightarrow> Inl t
                     | Inr a \<Rightarrow>
                         Inr \<lparr>event_class = cname, event_superclasses = supers,
                              event_id = eid, metadata = md, aggregateId = a,
                              committed = False\<rparr>)
                | Inr v \<Rightarrow> Inl TypeError))"

section \<open>The store\<close>

text \<open>The shared mutable objects: event objects, arrays of event references (with the next
  unused array reference), what each logger was handed by \<open>debug\<close>, and what each bus was
  handed by \<open>dispatch\<close>: the event's reference and the event as it was at the call.\<close>

record world =
  events :: "ref \<Rightarrow> DomainEvent"
  arrays :: "ref \<Rightarrow> ref list"
  nextArray :: ref
  debugged :: "ref \<Rightarrow> string list"
  dispatched :: "ref \<Rightarrow> (ref \<times> DomainEvent) list"

text \<open>The collaborators outside the sources: \<open>ApplicationContext.getCorrelationId()\<close>, the
  abstract \<open>Id.toString()\<close>, and whether a bus's \<open>dispatch\<close> fails (raises or rejects) for an
  event, which may depend on everything the bus can see.\<close>

record env =
  correlationId :: string
  idToString :: "ref \<Rightarrow> string"
  dispatchOutcome :: "world \<Rightarrow> ref \<Rightarrow> ref \<Rightarrow> thrown option"

definition newArray :: "world \<Rightarrow> ref list \<Rightarrow> ref \<times> world" where
  "newArray w xs =
     (nextArray w, w\<lparr>arrays := (arrays w)(nextArray w := xs), nextArray := Suc (nextArray w)\<rparr>)"

definition Array_push :: "world \<Rightarrow> ref \<Rightarrow> ref \<Rightarrow> world" where
  "Array_push w a x = w\<lparr>arrays := (arrays w)(a := arrays w a @ [x])\<rparr>"

definition isCommitted :: "world \<Rightarrow> ref \<Rightarrow> bool" where
  "isCommitted w ev = committed (events w ev)"

definition commit :: "world \<Rightarrow> ref \<Rightarrow> world" where
  "commit w ev = w\<lparr>events := (events w)(ev := (events w ev)\<lparr>committed := True\<rparr>)\<rparr>"

definition logger_debug :: "world \<Rightarrow> ref \<Rightarrow> string \<Rightarrow> world" where
  "logger_debug w logger msg = w\<lparr>debugged := (debugged w)(logger := debugged w logger @ [msg])\<rparr>"

definition dispatch :: "env \<Rightarrow> world \<Rightarrow> ref \<Rightarrow> ref \<Rightarrow> thrown option \<times> world" where
  "dispatch e w bus ev =
     (dispatchOutcome e w bus ev,
      w\<lparr>dispatched := (dispatched w)(bus := dispatched w bus @ [(ev, events w ev)])\<rparr>)"

section \<open>The aggregate root (class \<open>AggregateRoot\<close>, unnamed/part_005)\<close>

text \<open>An aggregate root is an entity with a \<open>version\<close>, the reference of its private
  \<open>_domainEvents\<close> array, and the state \<open>state\<close> that its concrete subclass owns. Operations
  take the aggregate and the store and return both; an operation that can raise returns
  what it raised (\<open>None\<close> for a normal return) next to the state it leaves behind. The
  continuation of an \<open>await\<close> runs with no other writer in between.\<close>

record 's AggregateRoot = Entity +
  version :: int
  domainEvents :: ref
  state :: 's

text \<open>The subclass's \<open>apply\<close> method, reached through \<open>(this as any).apply(event)\<close>: it reads
  the event and changes the subclass's state, or raises (as it does when the subclass has
  no such method). It does not reach the private \<open>_domainEvents\<close>, does not assign \<open>version\<close>
  and does not call back into the operations below.\<close>

type_synonym 's apply_hook = "'s \<Rightarrow> DomainEvent \<Rightarrow> thrown option \<times> 's"

text \<open>After \<open>super(..)\<close> the field initialisers run: \<open>version = 0\<close> and a new empty array.\<close>

definition AggregateRoot_new ::
  "string \<Rightarrow> (Entity \<Rightarrow> thrown + ExceptionBase list) \<Rightarrow> int \<Rightarrow> CreateEntityProps \<Rightarrow> 's
     \<Rightarrow> world \<Rightarrow> thrown + ('s AggregateRoot \<times> world)" where
  "AggregateRoot_new cname validate now c s0 w =
     (case Entity_new cname validate now c of
        Inl t \<Rightarrow> Inl t
      | Inr e \<Rightarrow>
          (let (a, w1) = newArray w []
           in Inr (Entity.extend e (AggregateRoot.fields 0 a s0), w1)))"

definition pullDomainEvents :: "'s AggregateRoot \<Rightarrow> world \<Rightarrow> ref \<times> 's AggregateRoot \<times> world" where
  "pullDomainEvents this w =
     (let (domainEvents_copy, w1) = newArray w (arrays w (domainEvents this));
          (empty, w2) = newArray w1 []
      in (domainEvents_copy, this\<lparr>domainEvents := empty\<rparr>, w2))"

definition commitEvents :: "'s AggregateRoot \<Rightarrow> world \<Rightarrow> world" where
  "commitEvents this w = foldl commit w (arrays w (domainEvents this))"

definition clearEvents :: "'s AggregateRoot \<Rightarrow> world \<Rightarrow> 's AggregateRoot \<times> world" where
  "clearEvents this w =
     (let (empty, w1) = newArray w [] in (this\<lparr>domainEvents := empty\<rparr>, w1))"

definition applyInternalEventChanges ::
  "'s apply_hook \<Rightarrow> 's AggregateRoot \<Rightarrow> world \<Rightarrow> ref \<Rightarrow> bool
     \<Rightarrow> thrown option \<times> 's AggregateRoot \<times> world" where
  "applyInternalEventChanges apply_hook this w event isNew =
     (case apply_hook (state this) (events w event) of
        (Some t, s') \<Rightarrow> (Some t, this\<lparr>state := s'\<rparr>, w)
      | (None, s') \<Rightarrow>
          (None, this\<lparr>state := s'\<rparr>,
           if isNew then Array_push w (domainEvents this) event else w))"

definition applyChange ::
  "'s apply_hook \<Rightarrow> 's AggregateRoot \<Rightarrow> world \<Rightarrow> ref
     \<Rightarrow> thrown option \<times> 's AggregateRoot \<times> world" where
  "applyChange apply_hook this w event = applyInternalEventChanges apply_hook this w event True"

text \<open>\<open>loadsFromHistory\<close>: the \<open>for .. of\<close> loop over the caller's array \<open>history\<close>, given by its
  elements; \<open>continue\<close> on an instance of the creation event's class; a raising hook ends
  the loop.\<close>

fun loadsFromHistory ::
  "'s apply_hook \<Rightarrow> 's AggregateRoot \<Rightarrow> world \<Rightarrow> ref list \<Rightarrow> string
     \<Rightarrow> thrown option \<times> 's AggregateRoot \<times> world" where
  "loadsFromHistory apply_hook this w [] creationEvent = (None, this, w)"
| "loadsFromHistory apply_hook this w (event # history) creationEvent =
     (if instanceof (events w event) creationEvent
      then loadsFromHistory apply_hook this w history creationEvent
      else (case applyInternalEventChanges apply_hook this w event False of
              (Some t, this', w') \<Rightarrow> (Some t, this', w')
            | (None, this', w') \<Rightarrow> loadsFromHistory apply_hook this' w' history creationEvent))"

text \<open>The message \<open>publishEvents\<close> logs for an event.\<close>

definition publishMessage :: "env \<Rightarrow> 's AggregateRoot \<Rightarrow> DomainEvent \<Rightarrow> string" where
  "publishMessage e this ev =
     correlationId e @ '' - '' @ [CHR 0x22] @ event_class ev @ [CHR 0x22]
       @ '' event published for aggregate '' @ constructor_name this @ '' : ''
       @ idToString e (entity_id this)"

text \<open>The \<open>map\<close> of \<open>publishEvents\<close>: each callback is an async function, which runs up to its
  first \<open>await\<close> when it is called. So for each event of the array in turn the message is
  logged, the event is committed and \<open>dispatch\<close> is called; the result is the outcome of each
  callback's promise. Building the message and \<open>logger.debug\<close> do not raise (the logger's
  contract), and a bus sees the event it is handed, not the aggregate.\<close>

fun publishEach ::
  "env \<Rightarrow> 's AggregateRoot \<Rightarrow> ref \<Rightarrow> ref \<Rightarrow> world \<Rightarrow> ref list \<Rightarrow> thrown option list \<times> world" where
  "publishEach e this logger eventBus w [] = ([], w)"
| "publishEach e this logger eventBus w (event # rest) =
     (let w1 = logger_debug w logger (publishMessage e this (events w event));
          w2 = commit w1 event;
          (outcome, w3) = dispatch e w2 eventBus event;
          (outcomes, w4) = publishEach e this logger eventBus w3 rest
      in (outcome # outcomes, w4))"

text \<open>\<open>await Promise.all(..)\<close> raises when a promise is rejected, and \<open>clearEvents\<close> is then
  not reached; of several rejections the model reports the first in array order.\<close>

fun firstRejection :: "thrown option list \<Rightarrow> thrown option" where
  "firstRejection [] = None"
| "firstRejection (None # os) = firstRejection os"
| "firstRejection (Some t # os) = Some t"

definition publishEvents ::
  "env \<Rightarrow> 's AggregateRoot \<Rightarrow> world \<Rightarrow> ref \<Rightarrow> ref \<Rightarrow> thrown option \<times> 's AggregateRoot \<times> world" where
  "publishEvents e this w logger eventBus =
     (let (outcomes, w1) = publishEach e this logger eventBus w (arrays w (domainEvents this))
      in case firstRejection outcomes of
           Some t \<Rightarrow> (Some t, this, w1)
         | None \<Rightarrow> (let (this', w2) = clearEvents this w1 in (None, this', w2)))"

text \<open>Any sequence of calls on one aggregate; the caller drops what a call returns and
  catches what it raises.\<close>

datatype operation =
    ApplyChange ref
  | LoadsFromHistory "ref list" string
  | PullDomainEvents
  | CommitEvents
  | ClearEvents
  | PublishEvents ref ref

fun perform ::
  "env \<Rightarrow> 's apply_hook \<Rightarrow> 's AggregateRoot \<times> world \<Rightarrow> operation \<Rightarrow> 's AggregateRoot \<times> world" where
  "perform e h (this, w) (ApplyChange event) = snd (applyChange h this w event)"
| "perform e h (this, w) (LoadsFromHistory history c) = snd (loadsFromHistory h this w history c)"
| "perform e h (this, w) PullDomainEvents = snd (pullDomainEvents this w)"
| "perform e h (this, w) CommitEvents = (this, commitEvents this w)"
| "perform e h (this, w) ClearEvents = clearEvents this w"
| "perform e h (this, w) (PublishEvents logger eventBus) =
     snd (publishEvents e this w logger eventBus)"

definition performAll ::
  "env \<Rightarrow> 's apply_hook \<Rightarrow> 's AggregateRoot \<times> world \<Rightarrow> operation list \<Rightarrow> 's AggregateRoot \<times> world" where
  "performAll e h = foldl (perform e h)"

section \<open>The event bus router (class \<open>EventBusRouter\<close>, unnamed/part_003)\<close>

record EventBusRouter =
  uncommittedEventBus :: ref
  committedEventBus :: ref

definition route :: "env \<Rightarrow> EventBusRouter \<Rightarrow> world \<Rightarrow> ref \<Rightarrow> thrown option \<times> world" where
  "route e this w domainEvent =
     (if isCommitted w domainEvent then dispatch e w (committedEventBus this) domainEvent
      else dispatch e w (uncommittedEventBus this) domainEvent)"

section \<open>Specification functions and example objects\<close>

text \<open>Calling a hook on each event of a list in turn, from a given state, up to the first
  call that raises.\<close>

fun applyEach :: "'s apply_hook \<Rightarrow> 's \<Rightarrow> DomainEvent list \<Rightarrow> thrown option \<times> 's" where
  "applyEach h s [] = (None, s)"
| "applyEach h s (ev # evs) =
     (case h s ev of (Some t, s') \<Rightarrow> (Some t, s') | (None, s') \<Rightarrow> applyEach h s' evs)"

text \<open>The objects the theorems are run on: three events (a creation event at reference 0),
  a store whose array 0 is the aggregate's ledger, an aggregate whose subclass state lists
  the classes of the events applied to it, a bus that accepts everything, two entities'
  worth of \<open>Id\<close> objects holding the same string, and an object with 51 properties.\<close>

definition example_events :: "ref \<Rightarrow> DomainEvent" where
  "example_events r =
     \<lparr>event_class = (if r = 0 then ''OrderCreated''
                     else if r = 1 then ''ItemAdded'' else ''ItemRemoved''),
      event_superclasses = [''DomainEvent'', ''Event''],
      event_id = replicate r CHR ''i'',
      metadata = JUndefined,
      aggregateId = JStr ''order-1'',
      committed = False\<rparr>"

definition example_world :: "ref list \<Rightarrow> world" where
  "example_world ledger =
     \<lparr>events = example_events, arrays = (\<lambda>a. if a = 0 then ledger else []), nextArray = 1,
      debugged = (\<lambda>l. []), dispatched = (\<lambda>b. [])\<rparr>"

definition example_aggregate :: "string list AggregateRoot" where
  "example_aggregate =
     \<lparr>constructor_name = ''Order'', errors = [], entity_id = 0, createdAt = 0, updatedAt = 0,
      props = JObj [(''total'', JNum 0)], validEntityAttributes = False,
      version = 0, domainEvents = 0, state = []\<rparr>"

definition example_apply :: "string list apply_hook" where
  "example_apply s ev = (None, s @ [event_class ev])"

definition example_env :: env where
  "example_env =
     \<lparr>correlationId = ''c-1'', idToString = (\<lambda>i. ''order-1''),
      dispatchOutcome = (\<lambda>w bus ev. None)\<rparr>"

definition example_entity :: "ref \<Rightarrow> jsval \<Rightarrow> Entity" where
  "example_entity i p =
     \<lparr>constructor_name = ''Customer'', errors = [], entity_id = i, createdAt = 0, updatedAt = 0,
      props = p, validEntityAttributes = False\<rparr>"

definition example_ids :: "ref \<Rightarrow> ValueObject" where
  "example_ids i = ValueObject [] (JObj [(''value'', JStr ''customer-1'')]) False"

definition example_many_props :: "(string \<times> jsval) list" where
  "example_many_props = map (\<lambda>n. (replicate (Suc n) CHR ''k'', JNum (int n))) [0..<51]"

lemmas example_defs = example_events_def example_world_def example_aggregate_def
  example_apply_def example_env_def

section \<open>Facts about the store\<close>

lemma newArray_simps:
  "fst (newArray w xs) = nextArray w"
  "arrays (snd (newArray w xs)) = (arrays w)(nextArray w := xs)"
  "nextArray (snd (newArray w xs)) = Suc (nextArray w)"
  "events (snd (newArray w xs)) = events w"
  "debugged (snd (newArray w xs)) = debugged w"
  "dispatched (snd (newArray w xs)) = dispatched w"
  by (simp_all add: newArray_def)

lemma commit_frame:
  "arrays (commit w ev) = arrays w"
  "nextArray (commit w ev) = nextArray w"
  "debugged (commit w ev) = debugged w"
  "dispatched (commit w ev) = dispatched w"
  by (simp_all add: commit_def)

lemma commit_events:
  "events (commit w ev) x = (if x = ev then (events w ev)\<lparr>committed := True\<rparr> else events w x)"
  by (simp add: commit_def)

lemma commit_idem: "commit (commit w ev) ev = commit w ev"
  by (simp add: commit_def)

lemma foldl_commit_frame:
  "arrays (foldl commit w evs) = arrays w \<and> nextArray (foldl commit w evs) = nextArray w
   \<and> debugged (foldl commit w evs) = debugged w \<and> dispatched (foldl commit w evs) = dispatched w"
  by (induction evs arbitrary: w) (simp_all add: commit_frame)

lemma foldl_commit_events:
  "events (foldl commit w evs) x =
     (if x \<in> set evs then (events w x)\<lparr>committed := True\<rparr> else events w x)"
proof (induction evs arbitrary: w)
  case Nil
  show ?case by simp
next
  case (Cons ev evs)
  show ?case by (simp add: Cons.IH commit_events)
qed

lemma logger_debug_frame:
  "arrays (logger_debug w l m) = arrays w"
  "nextArray (logger_debug w l m) = nextArray w"
  "events (logger_debug w l m) = events w"
  "dispatched (logger_debug w l m) = dispatched w"
  by (simp_all add: logger_debug_def)

lemma dispatch_frame:
  "arrays (snd (dispatch e w b ev)) = arrays w"
  "nextArray (snd (dispatch e w b ev)) = nextArray w"
  "events (snd (dispatch e w b ev)) = events w"
  "debugged (snd (dispatch e w b ev)) = debugged w"
  by (simp_all add: dispatch_def)

lemma dispatch_dispatched:
  "dispatched (snd (dispatch e w b ev)) x =
     (if x = b then dispatched w b @ [(ev, events w ev)] else dispatched w x)"
  by (simp add: dispatch_def)

lemma publishEach_frame:
  "arrays (snd (publishEach e this l b w evs)) = arrays w
   \<and> nextArray (snd (publishEach e this l b w evs)) = nextArray w"
  by (induction evs arbitrary: w)
     (simp_all add: Let_def split_def dispatch_frame commit_frame logger_debug_frame)

lemma publishEach_events:
  "events (snd (publishEach e this l b w evs)) x =
     (if x \<in> set evs then (events w x)\<lparr>committed := True\<rparr> else events w x)"
  by (induction evs arbitrary: w)
     (simp_all add: Let_def split_def dispatch_frame commit_events logger_debug_frame)

lemma publishEach_dispatched:
  "dispatched (snd (publishEach e this l b w evs)) x =
     (if x = b
      then dispatched w b @ map (\<lambda>ev. (ev, (events w ev)\<lparr>committed := True\<rparr>)) evs
      else dispatched w x)"
proof (induction evs arbitrary: w)
  case Nil
  show ?case by simp
next
  case (Cons ev evs)
  let ?w2 = "commit (logger_debug w l (publishMessage e this (events w ev))) ev"
  let ?w3 = "snd (dispatch e ?w2 b ev)"
  have ev3: "(events ?w3 y)\<lparr>committed := True\<rparr> = (events w y)\<lparr>committed := True\<rparr>" for y
    by (simp add: dispatch_frame commit_events logger_debug_frame)
  have d3: "dispatched ?w3 x =
      (if x = b then dispatched w b @ [(ev, (events w ev)\<lparr>committed := True\<rparr>)]
       else dispatched w x)"
    by (simp add: dispatch_dispatched commit_frame commit_events logger_debug_frame)
  have "dispatched (snd (publishEach e this l b w (ev # evs))) x =
        dispatched (snd (publishEach e this l b ?w3 evs)) x"
    by (simp add: Let_def split_def)
  also have "\<dots> = (if x = b
      then dispatched ?w3 b @ map (\<lambda>y. (y, (events ?w3 y)\<lparr>committed := True\<rparr>)) evs
      else dispatched ?w3 x)"
    by (rule Cons.IH)
  finally show ?case
    by (simp add: ev3 d3 dispatch_dispatched commit_frame commit_events logger_debug_frame)
qed

lemma publishEach_length:
  "length (fst (publishEach e this l b w evs)) = length evs"
  by (induction evs arbitrary: w) (simp_all add: Let_def split_def)

lemma publishMessage_commit:
  "publishMessage e this (ev\<lparr>committed := c\<rparr>) = publishMessage e this ev"
  by (simp add: publishMessage_def)

lemma publishEach_debugged:
  "debugged (snd (publishEach e this l b w evs)) x =
     (if x = l then debugged w l @ map (\<lambda>ev. publishMessage e this (events w ev)) evs
      else debugged w x)"
proof (induction evs arbitrary: w)
  case Nil
  show ?case by simp
next
  case (Cons ev evs)
  let ?w2 = "commit (logger_debug w l (publishMessage e this (events w ev))) ev"
  let ?w3 = "snd (dispatch e ?w2 b ev)"
  have m: "publishMessage e this (events ?w3 y) = publishMessage e this (events w y)" for y
    by (simp add: dispatch_frame commit_events logger_debug_frame publishMessage_commit)
  have d3: "debugged ?w3 z =
      (if z = l then debugged w l @ [publishMessage e this (events w ev)] else debugged w z)" for z
    by (simp add: dispatch_frame commit_def logger_debug_def)
  have "debugged (snd (publishEach e this l b w (ev # evs))) x =
        debugged (snd (publishEach e this l b ?w3 evs)) x"
    by (simp add: Let_def split_def)
  also have "\<dots> = (if x = l
      then debugged ?w3 l @ map (\<lambda>y. publishMessage e this (events ?w3 y)) evs
      else debugged ?w3 x)"
    by (rule Cons.IH)
  finally show ?case
    by (simp add: m d3)
qed

lemma firstRejection_None:
  "firstRejection os = None \<longleftrightarrow> (\<forall>out \<in> set os. out = None)"
  by (induction os rule: firstRejection.induct) simp_all

section \<open>Facts about the operations\<close>

lemma applyChange_result:
  "applyChange h this w ev =
     (case h (state this) (events w ev) of
        (Some t, s') \<Rightarrow> (Some t, this\<lparr>state := s'\<rparr>, w)
      | (None, s') \<Rightarrow> (None, this\<lparr>state := s'\<rparr>, Array_push w (domainEvents this) ev))"
  by (simp add: applyChange_def applyInternalEventChanges_def split: prod.splits option.splits)

lemma Array_push_simps:
  "arrays (Array_push w a x) b = (if b = a then arrays w a @ [x] else arrays w b)"
  "nextArray (Array_push w a x) = nextArray w"
  "events (Array_push w a x) = events w"
  "debugged (Array_push w a x) = debugged w"
  "dispatched (Array_push w a x) = dispatched w"
  by (simp_all add: Array_push_def)

lemma pullDomainEvents_result:
  "pullDomainEvents this w =
     (nextArray w, this\<lparr>domainEvents := Suc (nextArray w)\<rparr>,
      w\<lparr>arrays := (arrays w)(nextArray w := arrays w (domainEvents this), Suc (nextArray w) := []),
        nextArray := Suc (Suc (nextArray w))\<rparr>)"
  by (simp add: pullDomainEvents_def newArray_def)

lemma clearEvents_result:
  "clearEvents this w =
     (this\<lparr>domainEvents := nextArray w\<rparr>,
      w\<lparr>arrays := (arrays w)(nextArray w := []), nextArray := Suc (nextArray w)\<rparr>)"
  by (simp add: clearEvents_def newArray_def)

lemma loadsFromHistory_result:
  "loadsFromHistory h this w history c =
     (let (t, s') = applyEach h (state this)
                      (map (events w) (filter (\<lambda>ev. \<not> instanceof (events w ev) c) history))
      in (t, this\<lparr>state := s'\<rparr>, w))"
proof (induction history arbitrary: this)
  case Nil
  show ?case by simp
next
  case (Cons ev history)
  show ?case
    by (simp add: Cons.IH applyInternalEventChanges_def split: prod.splits option.splits)
qed

lemma publishEvents_result:
  "publishEvents e this w l b =
     (case firstRejection (fst (publishEach e this l b w (arrays w (domainEvents this)))) of
        Some t \<Rightarrow> (Some t, this, snd (publishEach e this l b w (arrays w (domainEvents this))))
      | None \<Rightarrow>
          (None, clearEvents this (snd (publishEach e this l b w (arrays w (domainEvents this))))))"
  by (simp add: publishEvents_def split_def split: option.splits)

lemma loadsFromHistory_frame:
  "version (fst (snd (loadsFromHistory h this w history c))) = version this"
  by (simp add: loadsFromHistory_result split_def Let_def)

lemma perform_version:
  "version (fst (perform e h aw op)) = version (fst aw)"
proof (cases aw)
  case (Pair this w)
  show ?thesis
  proof (cases op)
    case (ApplyChange ev)
    then show ?thesis
      by (simp add: Pair applyChange_result split: prod.splits option.splits)
  next
    case (LoadsFromHistory history c)
    then show ?thesis by (simp add: Pair loadsFromHistory_frame)
  next
    case PullDomainEvents
    then show ?thesis by (simp add: Pair pullDomainEvents_result)
  next
    case CommitEvents
    then show ?thesis by (simp add: Pair)
  next
    case ClearEvents
    then show ?thesis by (simp add: Pair clearEvents_result)
  next
    case (PublishEvents l b)
    then show ?thesis
      by (simp add: Pair publishEvents_result clearEvents_result split: option.splits)
  qed
qed

lemma performAll_version:
  "version (fst (performAll e h aw ops)) = version (fst aw)"
  unfolding performAll_def
  by (induction ops arbitrary: aw) (simp_all add: perform_version)

text \<open>The ledger's array is always one that has been allocated.\<close>

lemma perform_allocated:
  assumes "domainEvents (fst aw) < nextArray (snd aw)"
  shows "domainEvents (fst (perform e h aw op)) < nextArray (snd (perform e h aw op))"
proof (cases aw)
  case (Pair this w)
  with assms have a: "domainEvents this < nextArray w" by simp
  show ?thesis
  proof (cases op)
    case (ApplyChange ev)
    with a show ?thesis
      by (simp add: Pair applyChange_result Array_push_simps split: prod.splits option.splits)
  next
    case (LoadsFromHistory history c)
    with a show ?thesis
      by (simp add: Pair loadsFromHistory_result split_def Let_def)
  next
    case PullDomainEvents
    then show ?thesis by (simp add: Pair pullDomainEvents_result)
  next
    case CommitEvents
    with a show ?thesis by (simp add: Pair commitEvents_def foldl_commit_frame)
  next
    case ClearEvents
    then show ?thesis by (simp add: Pair clearEvents_result)
  next
    case (PublishEvents l b)
    with a show ?thesis
      by (simp add: Pair publishEvents_result clearEvents_result publishEach_frame
          split: option.splits)
  qed
qed

lemma AggregateRoot_new_fresh:
  assumes "AggregateRoot_new cname validate now c s0 w0 = Inr (this, w)"
  shows "version this = 0 \<and> arrays w (domainEvents this) = [] \<and> domainEvents this < nextArray w"
  using assms
  by (auto simp add: AggregateRoot_new_def newArray_def Entity.extend_def AggregateRoot.fields_def
      split: sum.splits)

lemma isValid_True:
  assumes "isValid a = (True, a')"
  shows "errors a = [] \<and> a' = a\<lparr>validEntityAttributes := True\<rparr>"
  using assms by (auto simp add: isValid_def addValidEntityAttributes_def split: if_splits)

lemma ValueObject_new_errors:
  assumes "ValueObject_new validate p = Inr vo"
  shows "vo_props vo = p \<and> vo_armed vo = False
         \<and> (\<exists>errs. validate p = Inr errs
              \<and> vo_errors vo =
                  (if Guard_isEmpty p \<or> (isDomainPrimitive p = Inr True
                                          \<and> (\<exists>v. getProp p ''value'' = Inr v \<and> Guard_isEmpty v))
                   then [ArgumentNotProvidedException ''Properties cannot be empty''] else [])
                  @ errs)"
  using assms
  by (auto simp add: ValueObject_new_def checkIfEmpty_def vo_addError_def
      split: sum.splits if_splits bool.splits)

lemma ValueObject_new_not_nullish:
  assumes "ValueObject_new validate p = Inr vo" and "vo_errors vo = []"
  shows "p \<noteq> JUndefined \<and> p \<noteq> JNull"
  using ValueObject_new_errors[OF assms(1)] assms(2) by auto

lemma forceUnpack_errors:
  assumes "vo_errors vo \<noteq> []"
  shows "forceUnpack conv vo = Inl (ThrowErrors (vo_errors vo))" and "vo_isValid vo = (False, vo)"
  using assms by (simp_all add: forceUnpack_def vo_isValid_def)

lemma forceUnpack_no_errors:
  assumes "vo_errors vo = []"
  shows "forceUnpack conv vo = internalUnpack conv vo"
  using assms by (simp add: forceUnpack_def)

lemma internalUnpack_value:
  assumes "vo_props vo = JObj kvs" and "map_of kvs ''value'' = Some v"
  shows "internalUnpack conv vo = Inr v"
proof -
  have "''value'' \<in> set (map fst kvs)"
    using assms(2) by (metis map_of_eq_None_iff option.distinct(1) set_map)
  then show ?thesis
    using assms by (simp add: internalUnpack_def)
qed

lemma internalUnpack_returns:
  assumes "vo_props vo \<noteq> JUndefined" and "vo_props vo \<noteq> JNull"
  shows "\<exists>v. internalUnpack conv vo = Inr v"
  using assms by (cases "vo_props vo") (auto simp add: internalUnpack_def split: bool.splits)

text \<open>A well-formed properties bag gives an uncommitted event.\<close>

lemma DomainEvent_new_example:
  "DomainEvent_new (\<lambda>p. p) ''ItemAdded'' [''DomainEvent'', ''Event''] ''i''
     (JObj [(''aggregateId'', JValueObject (ValueObject [] (JObj [(''value'', JStr ''order-1'')]) False)),
            (''sku'', JStr ''A-7'')]) =
   Inr (example_events 1)"
  by (simp add: DomainEvent_new_def forceUnpack_def internalUnpack_def example_events_def)

lemma validateProps_too_many:
  assumes "length kvs > MAX_PROPS"
  shows "validateProps this (JObj kvs) =
           Inr (addError this (ArgumentOutOfRangeException
                                 ''Entity props should not have more than 50 properties''))"
proof -
  have "kvs \<noteq> []" using assms by auto
  then show ?thesis using assms by (simp add: validateProps_def)
qed

lemma validateProps_kinds:
  "validateProps this (JObj []) =
     Inr (addError this (ArgumentNotProvidedException ''Entity props should not be empty''))"
  "validateProps this (JNum n) =
     Inr (addError this (ArgumentInvalidException ''Entity props should be an object''))"
  by (simp_all add: validateProps_def MAX_PROPS_def)

lemma isValid_False:
  assumes "errors this \<noteq> []"
  shows "isValid this = (False, this)"
  using assms by (simp add: isValid_def)

text \<open>What is left behind when a collaborator raises: a rejected dispatch leaves the
  ledger uncleared (its events committed and dispatched), a raising hook leaves it
  without the event.\<close>

lemma publishEvents_rejected_example:
  "let e = example_env\<lparr>dispatchOutcome := (\<lambda>w bus ev. if ev = 2 then Some (Rejected ''bus down'') else None)\<rparr>;
       (t, this', w') = publishEvents e example_aggregate (example_world [1, 2]) 5 7
   in t = Some (Rejected ''bus down'')
      \<and> this' = example_aggregate
      \<and> arrays w' (domainEvents this') = [1, 2]
      \<and> map fst (dispatched w' 7) = [1, 2]
      \<and> isCommitted w' 1 \<and> isCommitted w' 2"
  by (simp add: publishEvents_def Let_def split_def dispatch_def commit_def logger_debug_def
      isCommitted_def example_defs)

lemma applyChange_raising_hook_example:
  "applyChange (\<lambda>s ev. (Some TypeError, s)) example_aggregate (example_world []) 1 =
     (Some TypeError, example_aggregate, example_world [])"
  by (simp add: applyChange_def applyInternalEventChanges_def)

text \<open>Every event is an instance of its superclasses: replaying with a superclass as the
  creation class skips them all.\<close>

lemma loadsFromHistory_superclass_example:
  "loadsFromHistory example_apply example_aggregate (example_world []) [0, 1, 2] ''DomainEvent'' =
     (None, example_aggregate, example_world [])"
  by (simp add: instanceof_def example_world_def example_events_def)

section \<open>The aggregate's ledger\<close>

text \<open>
  Claim C1. When the subclass hook returns, \<open>applyChange(e)\<close> appends \<open>e\<close> to the ledger. The
  following \<open>pullDomainEvents()\<close> returns a new array holding the ledger in insertion order,
  ending with \<open>e\<close>; that array is neither the array the ledger was nor the array it is
  now, and later changes of the aggregate leave it alone. The ledger is empty afterwards,
  so a second pull returns an empty array; and when the ledger was empty before (a fresh
  aggregate), the first pull returns exactly \<open>[e]\<close>.
\<close>

theorem applyChange_then_pullDomainEvents:
  assumes hook_returns: "fst (apply_hook (state this) (events w e)) = None"
    and allocated: "domainEvents this < nextArray w"
  shows "let (t, this1, w1) = applyChange apply_hook this w e;
             (pulled, this2, w2) = pullDomainEvents this1 w1;
             (pulled', this3, w3) = pullDomainEvents this2 w2
         in t = None
            \<and> arrays w1 (domainEvents this1) = arrays w (domainEvents this) @ [e]
            \<and> arrays w2 pulled = arrays w (domainEvents this) @ [e]
            \<and> pulled \<noteq> domainEvents this1 \<and> pulled \<noteq> domainEvents this2
            \<and> arrays w2 (domainEvents this2) = []
            \<and> arrays w3 pulled' = []
            \<and> arrays w3 pulled = arrays w (domainEvents this) @ [e]
            \<and> (\<forall>h' e'. arrays (snd (snd (applyChange h' this2 w2 e'))) pulled = arrays w2 pulled)
            \<and> (arrays w (domainEvents this) = [] \<longrightarrow> arrays w2 pulled = [e])"
proof -
  obtain s' where h: "apply_hook (state this) (events w e) = (None, s')"
    using hook_returns by (cases "apply_hook (state this) (events w e)") simp
  define this1 where "this1 = this\<lparr>state := s'\<rparr>"
  define w1 where "w1 = Array_push w (domainEvents this) e"
  define this2 where "this2 = this1\<lparr>domainEvents := Suc (nextArray w1)\<rparr>"
  define w2 where "w2 = snd (snd (pullDomainEvents this1 w1))"
  have a: "applyChange apply_hook this w e = (None, this1, w1)"
    by (simp add: applyChange_result h this1_def w1_def)
  have p: "pullDomainEvents this1 w1 = (nextArray w1, this2, w2)"
    by (simp add: pullDomainEvents_result this2_def w2_def)
  define w3 where "w3 = snd (snd (pullDomainEvents this2 w2))"
  have p': "pullDomainEvents this2 w2 =
      (nextArray w2, this2\<lparr>domainEvents := Suc (nextArray w2)\<rparr>, w3)"
    by (simp add: pullDomainEvents_result w3_def)
  have n1: "nextArray w1 = nextArray w"
    by (simp add: w1_def Array_push_simps)
  have ledger1: "arrays w1 (domainEvents this1) = arrays w (domainEvents this) @ [e]"
    by (simp add: w1_def this1_def Array_push_simps)
  have copy: "arrays w2 (nextArray w1) = arrays w (domainEvents this) @ [e]"
    by (simp add: w2_def pullDomainEvents_result ledger1)
  have fresh: "nextArray w1 \<noteq> domainEvents this1" "nextArray w1 \<noteq> domainEvents this2"
    using allocated by (simp_all add: n1 this1_def this2_def)
  have empty2: "arrays w2 (domainEvents this2) = []"
    by (simp add: w2_def this2_def pullDomainEvents_result)
  have n2: "nextArray w2 = Suc (Suc (nextArray w1))"
    by (simp add: w2_def pullDomainEvents_result)
  have empty3: "arrays w3 (nextArray w2) = []"
    by (simp add: w3_def pullDomainEvents_result empty2)
  have kept: "arrays w3 (nextArray w1) = arrays w (domainEvents this) @ [e]"
    by (simp add: w3_def pullDomainEvents_result n2 copy)
  have later: "arrays (snd (snd (applyChange h' this2 w2 e'))) (nextArray w1) =
      arrays w2 (nextArray w1)" for h' e'
    using fresh(2)
    by (simp add: applyChange_result Array_push_simps split: prod.splits option.splits)
  show ?thesis
    unfolding a p p' Let_def prod.case
    using ledger1 copy fresh empty2 empty3 kept later by simp
qed

text \<open>Claim C1 at the example objects.\<close>

theorem applyChange_then_pullDomainEvents_witness:
  "fst (example_apply (state example_aggregate) (events (example_world []) 1)) = None
   \<and> domainEvents example_aggregate < nextArray (example_world [])
   \<and> (let (t, this1, w1) = applyChange example_apply example_aggregate (example_world []) 1;
           (pulled, this2, w2) = pullDomainEvents this1 w1;
           (pulled', this3, w3) = pullDomainEvents this2 w2
       in t = None \<and> arrays w2 pulled = [1] \<and> arrays w3 pulled' = []
          \<and> pulled \<noteq> domainEvents this2 \<and> arrays w3 pulled = [1])"
proof -
  have h1: "fst (example_apply (state example_aggregate) (events (example_world []) 1)) = None"
    by (simp add: example_apply_def)
  have h2: "domainEvents example_aggregate < nextArray (example_world [])"
    by (simp add: example_aggregate_def example_world_def)
  have l: "arrays (example_world []) (domainEvents example_aggregate) = []"
    by (simp add: example_aggregate_def example_world_def)
  show ?thesis
    using h1 h2 applyChange_then_pullDomainEvents
      [of example_apply example_aggregate "example_world []" 1]
    by (simp add: Let_def split_def l)
qed

text \<open>
  Claim C2. \<open>loadsFromHistory(history, C)\<close> runs the subclass hook on the events of \<open>history\<close>
  that are no instance of \<open>C\<close>, in stream order (up to a call that raises), and changes
  nothing but the subclass state: the store, and with it the ledger, is as before. On an
  aggregate with an empty ledger, a pull after the replay returns an empty array.
\<close>

theorem loadsFromHistory_replays_without_recording:
  "loadsFromHistory h this w history c =
     (let (t, s') = applyEach h (state this)
                      (map (events w) (filter (\<lambda>ev. \<not> instanceof (events w ev) c) history))
      in (t, this\<lparr>state := s'\<rparr>, w))
   \<and> snd (snd (loadsFromHistory h this w history c)) = w
   \<and> domainEvents (fst (snd (loadsFromHistory h this w history c))) = domainEvents this
   \<and> (arrays w (domainEvents this) = [] \<longrightarrow>
        (let (t, this', w') = loadsFromHistory h this w history c;
             (pulled, this'', w'') = pullDomainEvents this' w'
         in arrays w'' pulled = []))"
  by (simp add: loadsFromHistory_result pullDomainEvents_result split: prod.splits)

text \<open>Claim C2 at the example objects.\<close>

theorem loadsFromHistory_replays_without_recording_witness:
  "loadsFromHistory example_apply example_aggregate (example_world []) [0, 1, 2] ''OrderCreated'' =
     (None, example_aggregate\<lparr>state := [''ItemAdded'', ''ItemRemoved'']\<rparr>, example_world [])
   \<and> arrays (example_world []) (domainEvents example_aggregate) = []
   \<and> (let (t, this', w') =
             loadsFromHistory example_apply example_aggregate (example_world []) [0, 1, 2] ''OrderCreated'';
           (pulled, this'', w'') = pullDomainEvents this' w'
       in arrays w'' pulled = [])"
proof -
  have l: "arrays (example_world []) (domainEvents example_aggregate) = []"
    by (simp add: example_aggregate_def example_world_def)
  have ev: "events (example_world []) = example_events"
    by (simp add: example_world_def)
  have s: "state example_aggregate = []"
    by (simp add: example_aggregate_def)
  let ?run = "loadsFromHistory example_apply example_aggregate (example_world []) [0, 1, 2]
      ''OrderCreated''"
  have eq: "?run =
      (let (t, s') = applyEach example_apply (state example_aggregate)
                       (map (events (example_world []))
                          (filter (\<lambda>ev. \<not> instanceof (events (example_world []) ev) ''OrderCreated'')
                             [0, 1, 2]))
       in (t, example_aggregate\<lparr>state := s'\<rparr>, example_world []))"
    using loadsFromHistory_replays_without_recording
      [of example_apply example_aggregate "example_world []" "[0, 1, 2]" "''OrderCreated''"]
    by (rule conjunct1)
  have r: "?run =
      (None, example_aggregate\<lparr>state := [''ItemAdded'', ''ItemRemoved'']\<rparr>, example_world [])"
    unfolding eq by (simp add: ev s instanceof_def example_events_def example_apply_def)
  show ?thesis
    unfolding r using l
    by (simp add: pullDomainEvents_result example_aggregate_def example_world_def)
qed

text \<open>
  Claim C3. \<open>publishEvents(logger, eventBus)\<close> hands every event of the ledger to
  \<open>eventBus.dispatch\<close>, in order, each one committed at the moment of the call, and to no other
  bus; all of them are committed afterwards. When every dispatch has been called the ledger
  is still whole; it is cleared after that, when no dispatch failed, and a following pull
  then returns an empty array. When a dispatch failed the call raises and the ledger stays.
\<close>

theorem publishEvents_commits_before_dispatch:
  "let ledger = arrays w (domainEvents this);
       (outcomes, w1) = publishEach e this logger eventBus w ledger;
       (t, this', w') = publishEvents e this w logger eventBus
   in dispatched w' eventBus =
        dispatched w eventBus @ map (\<lambda>ev. (ev, (events w ev)\<lparr>committed := True\<rparr>)) ledger
      \<and> (\<forall>bus. bus \<noteq> eventBus \<longrightarrow> dispatched w' bus = dispatched w bus)
      \<and> (\<forall>ev \<in> set ledger. isCommitted w' ev)
      \<and> arrays w1 (domainEvents this) = ledger
      \<and> dispatched w1 = dispatched w'
      \<and> (t = None \<longleftrightarrow> (\<forall>outcome \<in> set outcomes. outcome = None))
      \<and> (t = None \<longrightarrow>
            arrays w' (domainEvents this') = []
            \<and> (let (pulled, this'', w'') = pullDomainEvents this' w' in arrays w'' pulled = []))
      \<and> (t \<noteq> None \<longrightarrow> this' = this \<and> arrays w' (domainEvents this') = ledger)"
proof -
  define ledger where "ledger = arrays w (domainEvents this)"
  define outcomes where "outcomes = fst (publishEach e this logger eventBus w ledger)"
  define w1 where "w1 = snd (publishEach e this logger eventBus w ledger)"
  have each: "publishEach e this logger eventBus w ledger = (outcomes, w1)"
    by (simp add: outcomes_def w1_def)
  have d1: "dispatched w1 bus =
      (if bus = eventBus
       then dispatched w eventBus @ map (\<lambda>ev. (ev, (events w ev)\<lparr>committed := True\<rparr>)) ledger
       else dispatched w bus)" for bus
    by (simp add: w1_def publishEach_dispatched)
  have c1: "\<forall>ev \<in> set ledger. isCommitted w1 ev"
    by (simp add: w1_def isCommitted_def publishEach_events)
  have a1: "arrays w1 = arrays w"
    by (simp add: w1_def publishEach_frame)
  show ?thesis
  proof (cases "firstRejection outcomes")
    case None
    have r: "publishEvents e this w logger eventBus =
        (None, this\<lparr>domainEvents := nextArray w1\<rparr>,
         w1\<lparr>arrays := (arrays w1)(nextArray w1 := []), nextArray := Suc (nextArray w1)\<rparr>)"
      using None by (simp add: publishEvents_result clearEvents_result ledger_def[symmetric] each)
    have all: "\<forall>outcome \<in> set outcomes. outcome = None"
      using None by (simp add: firstRejection_None)
    show ?thesis
      unfolding ledger_def[symmetric] Let_def each r prod.case
      using d1 c1 all by (simp add: a1 ledger_def isCommitted_def pullDomainEvents_result)
  next
    case (Some t)
    have r: "publishEvents e this w logger eventBus = (Some t, this, w1)"
      using Some by (simp add: publishEvents_result ledger_def[symmetric] each)
    have some: "\<not> (\<forall>outcome \<in> set outcomes. outcome = None)"
      using Some by (simp add: firstRejection_None[symmetric])
    show ?thesis
      unfolding ledger_def[symmetric] Let_def each r prod.case
      using d1 c1 some by (simp add: a1 ledger_def)
  qed
qed

text \<open>Claim C3 at the example objects.\<close>

theorem publishEvents_commits_before_dispatch_witness:
  "let (t, this', w') = publishEvents example_env example_aggregate (example_world [1, 2]) 5 7
   in t = None
      \<and> dispatched w' 7 = [(1, (example_events 1)\<lparr>committed := True\<rparr>),
                           (2, (example_events 2)\<lparr>committed := True\<rparr>)]
      \<and> dispatched w' 8 = []
      \<and> isCommitted w' 1 \<and> isCommitted w' 2 \<and> \<not> isCommitted w' 0
      \<and> arrays w' (domainEvents this') = []"
  using publishEvents_commits_before_dispatch
    [of "example_world [1, 2]" example_aggregate example_env 5 7]
  by (simp add: publishEvents_def Let_def split_def dispatch_def commit_def logger_debug_def
      clearEvents_def newArray_def isCommitted_def example_defs)

text \<open>
  Claim C7. \<open>commitEvents()\<close> sets \<open>committed\<close> on every event of the ledger and changes nothing
  else: every array (the ledger among them) keeps its elements, nothing is dispatched or
  logged, the other events are untouched, a committed event stays committed. \<open>commit()\<close> is
  idempotent, and so is \<open>commitEvents()\<close>.
\<close>

theorem commitEvents_marks_ledger_only:
  "arrays (commitEvents this w) = arrays w
   \<and> nextArray (commitEvents this w) = nextArray w
   \<and> debugged (commitEvents this w) = debugged w
   \<and> dispatched (commitEvents this w) = dispatched w
   \<and> (\<forall>ev. events (commitEvents this w) ev =
         (if ev \<in> set (arrays w (domainEvents this))
          then (events w ev)\<lparr>committed := True\<rparr> else events w ev))
   \<and> (\<forall>ev. isCommitted w ev \<longrightarrow> isCommitted (commitEvents this w) ev)
   \<and> (\<forall>ev. commit (commit w ev) ev = commit w ev)
   \<and> commitEvents this (commitEvents this w) = commitEvents this w"
proof -
  let ?w = "commitEvents this w"
  have frame: "arrays ?w = arrays w" "nextArray ?w = nextArray w"
    "debugged ?w = debugged w" "dispatched ?w = dispatched w"
    by (simp_all add: commitEvents_def foldl_commit_frame)
  have ev: "events ?w x =
      (if x \<in> set (arrays w (domainEvents this))
       then (events w x)\<lparr>committed := True\<rparr> else events w x)" for x
    by (simp add: commitEvents_def foldl_commit_events)
  have mono: "isCommitted w x \<longrightarrow> isCommitted ?w x" for x
    by (simp add: isCommitted_def ev)
  have "events (commitEvents this ?w) = events ?w"
    by (rule ext) (simp add: commitEvents_def foldl_commit_events foldl_commit_frame)
  then have idem: "commitEvents this ?w = ?w"
    by (intro world.equality) (simp_all add: commitEvents_def foldl_commit_frame)
  from frame ev mono idem commit_idem show ?thesis by blast
qed

text \<open>Claim C7 at the example objects.\<close>

theorem commitEvents_marks_ledger_only_witness:
  "arrays (commitEvents example_aggregate (example_world [1, 2])) 0 = [1, 2]
   \<and> isCommitted (commitEvents example_aggregate (example_world [1, 2])) 1
   \<and> isCommitted (commitEvents example_aggregate (example_world [1, 2])) 2
   \<and> \<not> isCommitted (commitEvents example_aggregate (example_world [1, 2])) 0
   \<and> \<not> isCommitted (example_world [1, 2]) 1
   \<and> dispatched (commitEvents example_aggregate (example_world [1, 2])) 7 = []
   \<and> commitEvents example_aggregate (commitEvents example_aggregate (example_world [1, 2])) =
       commitEvents example_aggregate (example_world [1, 2])"
  using commitEvents_marks_ledger_only [of example_aggregate "example_world [1, 2]"]
  by (simp add: isCommitted_def example_defs)

text \<open>
  Claim C10. A newly constructed aggregate has \<open>version\<close> 0, and no operation of the core,
  and no sequence of them, changes \<open>version\<close>, whether the operations return or raise.
\<close>

theorem version_is_never_modified:
  "(AggregateRoot_new cname validate now c s0 w0 = Inr (this0, w1) \<longrightarrow> version this0 = 0)
   \<and> version (fst (performAll e h (this, w) ops)) = version this
   \<and> version (fst (perform e h (this, w) op)) = version this"
  using AggregateRoot_new_fresh[of cname validate now c s0 w0 this0 w1]
  by (simp add: performAll_version perform_version)

text \<open>Claim C10 at the example objects.\<close>

theorem version_is_never_modified_witness:
  "AggregateRoot_new ''Order'' (\<lambda>this. Inr []) 0
      \<lparr>create_id = 0, create_props = JObj [(''total'', JNum 0)],
       create_createdAt = None, create_updatedAt = None\<rparr>
      ([] :: string list)
      ((example_world [])\<lparr>nextArray := 0\<rparr>) =
     Inr (example_aggregate, (example_world [])\<lparr>arrays := (arrays (example_world []))(0 := [])\<rparr>)
   \<and> version example_aggregate = 0
   \<and> version (fst (performAll example_env example_apply (example_aggregate, example_world [])
                     [ApplyChange 1, CommitEvents, PullDomainEvents,
                      LoadsFromHistory [0, 2] ''OrderCreated'', ApplyChange 2,
                      PublishEvents 5 7, ClearEvents])) = 0"
proof -
  have new: "AggregateRoot_new ''Order'' (\<lambda>this. Inr []) 0
      \<lparr>create_id = 0, create_props = JObj [(''total'', JNum 0)],
       create_createdAt = None, create_updatedAt = None\<rparr>
      ([] :: string list)
      ((example_world [])\<lparr>nextArray := 0\<rparr>) =
     Inr (example_aggregate, (example_world [])\<lparr>arrays := (arrays (example_world []))(0 := [])\<rparr>)"
    by (simp add: AggregateRoot_new_def Entity_new_def validateProps_def MAX_PROPS_def newArray_def
        Entity.extend_def AggregateRoot.fields_def example_aggregate_def example_world_def)
  show ?thesis
    using new version_is_never_modified
      [of "''Order''" "\<lambda>this. Inr []" 0
        "\<lparr>create_id = 0, create_props = JObj [(''total'', JNum 0)],
          create_createdAt = None, create_updatedAt = None\<rparr>"
        "[] :: string list" "(example_world [])\<lparr>nextArray := 0\<rparr>"
        example_aggregate "(example_world [])\<lparr>arrays := (arrays (example_world []))(0 := [])\<rparr>"
        example_env example_apply example_aggregate "example_world []"
        "[ApplyChange 1, CommitEvents, PullDomainEvents,
          LoadsFromHistory [0, 2] ''OrderCreated'', ApplyChange 2,
          PublishEvents 5 7, ClearEvents]"]
    by simp
qed

section \<open>Entities, value objects and events\<close>

text \<open>
  Claim C4. For an entity that \<open>isValid()\<close> has found valid, \<open>equals(b)\<close> is true exactly when
  \<open>b\<close> is neither \<open>null\<close> nor \<open>undefined\<close> and the two \<open>id\<close>s are the same reference. The props of
  either side play no part, and two different \<open>Id\<close> objects make the entities unequal
  whatever the objects hold.
\<close>

theorem equals_compares_id_references:
  assumes valid: "isValid a = (True, a')"
  shows "Entity_equals a' b =
           Inr (case b of IsObject other \<Rightarrow> entity_id a = entity_id other | _ \<Rightarrow> False)
         \<and> (Entity_equals a' b = Inr True \<longleftrightarrow>
              b \<noteq> IsNull \<and> b \<noteq> IsUndefined \<and> (\<exists>other. b = IsObject other \<and> entity_id a = entity_id other))
         \<and> Entity_equals a' (IsObject (other\<lparr>props := q\<rparr>)) = Entity_equals a' (IsObject other)
         \<and> Entity_equals (a'\<lparr>props := q\<rparr>) b = Entity_equals a' b
         \<and> (entity_id a \<noteq> entity_id other \<longrightarrow> Entity_equals a' (IsObject other) = Inr False)"
proof -
  have a': "a' = a\<lparr>validEntityAttributes := True\<rparr>"
    using isValid_True[OF valid] by simp
  show ?thesis
    by (cases b) (simp_all add: a' Entity_equals_def internalEquals_def)
qed

text \<open>Claim C4 at the example objects.\<close>

theorem equals_compares_id_references_witness:
  "isValid (example_entity 3 (JObj [(''name'', JStr ''a'')])) =
     (True, (example_entity 3 (JObj [(''name'', JStr ''a'')]))\<lparr>validEntityAttributes := True\<rparr>)
   \<and> Entity_equals ((example_entity 3 (JObj [(''name'', JStr ''a'')]))\<lparr>validEntityAttributes := True\<rparr>)
        (IsObject (example_entity 3 (JObj [(''name'', JStr ''b'')]))) = Inr True
   \<and> example_ids 3 = example_ids 4
   \<and> Entity_equals ((example_entity 3 (JObj [(''name'', JStr ''a'')]))\<lparr>validEntityAttributes := True\<rparr>)
        (IsObject (example_entity 4 (JObj [(''name'', JStr ''a'')]))) = Inr False
   \<and> Entity_equals ((example_entity 3 (JObj [(''name'', JStr ''a'')]))\<lparr>validEntityAttributes := True\<rparr>)
        (IsNull :: Entity nullable) = Inr False
   \<and> Entity_equals ((example_entity 3 (JObj [(''name'', JStr ''a'')]))\<lparr>validEntityAttributes := True\<rparr>)
        (IsUndefined :: Entity nullable) = Inr False"
proof -
  let ?a = "example_entity 3 (JObj [(''name'', JStr ''a'')])"
  let ?a' = "?a\<lparr>validEntityAttributes := True\<rparr>"
  have v: "isValid ?a = (True, ?a')"
    by (simp add: isValid_def addValidEntityAttributes_def example_entity_def)
  have same: "Entity_equals ?a' (IsObject (example_entity 3 (JObj [(''name'', JStr ''b'')]))) = Inr True"
    using equals_compares_id_references
      [OF v, where b = "IsObject (example_entity 3 (JObj [(''name'', JStr ''b'')]))"
          and other = "example_entity 4 (JObj [(''name'', JStr ''a'')])" and q = JNull]
    by (simp add: example_entity_def)
  have other: "Entity_equals ?a' (IsObject (example_entity 4 (JObj [(''name'', JStr ''a'')]))) = Inr False"
    using equals_compares_id_references
      [OF v, where b = "IsObject (example_entity 4 (JObj [(''name'', JStr ''a'')]))"
          and other = "example_entity 4 (JObj [(''name'', JStr ''a'')])" and q = JNull]
    by (simp add: example_entity_def)
  have null: "Entity_equals ?a' (IsNull :: Entity nullable) = Inr False"
    using equals_compares_id_references 
      [OF v, where b = "IsNull :: Entity nullable"
          and other = "example_entity 4 (JObj [(''name'', JStr ''a'')])" and q = JNull]
    by simp
  have undef: "Entity_equals ?a' (IsUndefined :: Entity nullable) = Inr False"
    using equals_compares_id_references 
      [OF v, where b = "IsUndefined :: Entity nullable"
          and other = "example_entity 4 (JObj [(''name'', JStr ''a'')])" and q = JNull]
    by simp
  have ids: "example_ids 3 = example_ids 4"
    by (simp add: example_ids_def)
  from v same other null undef ids show ?thesis by simp
qed

text \<open>
  Claim C5. For every value object with a recorded error, \<open>forceUnpack()\<close> raises, the raised
  value carries the whole list of errors, and \<open>isValid()\<close> is false. With no recorded error
  it returns the unwrapped value: the \<open>value\<close> field for a primitive-wrapped object, the
  converted props otherwise; it returns for every object the constructor has built. Built
  from \<open>value = "x"\<close> (and a hook that adds nothing) the object unpacks to \<open>"x"\<close>; built from
  \<open>value = ""\<close> it is not valid and \<open>forceUnpack()\<close> raises the emptiness error followed by the
  hook's errors.
\<close>

theorem forceUnpack_value_or_all_errors:
  "(vo_errors vo \<noteq> [] \<longrightarrow>
      forceUnpack conv vo = Inl (ThrowErrors (vo_errors vo)) \<and> vo_isValid vo = (False, vo))
   \<and> (vo_errors vo = [] \<longrightarrow>
        (\<forall>kvs v. vo_props vo = JObj kvs \<and> map_of kvs ''value'' = Some v \<longrightarrow>
           forceUnpack conv vo = Inr v)
        \<and> (isDomainPrimitive (vo_props vo) = Inr False \<longrightarrow>
             forceUnpack conv vo = Inr (conv (vo_props vo)))
        \<and> (vo_props vo \<noteq> JUndefined \<and> vo_props vo \<noteq> JNull \<longrightarrow>
             (\<exists>v. forceUnpack conv vo = Inr v)))
   \<and> (ValueObject_new validate p = Inr built \<longrightarrow>
        vo_props built = p
        \<and> (vo_errors built = [] \<longrightarrow> (\<exists>v. forceUnpack conv built = Inr v))
        \<and> (\<exists>errs. validate p = Inr errs
              \<and> (p = JObj [(''value'', JStr ''x'')] \<and> errs = [] \<longrightarrow>
                    forceUnpack conv built = Inr (JStr ''x''))
              \<and> (p = JObj [(''value'', JStr '''')] \<longrightarrow>
                    fst (vo_isValid built) = False
                    \<and> forceUnpack conv built =
                        Inl (ThrowErrors
                               (ArgumentNotProvidedException ''Properties cannot be empty'' # errs)))))"
proof -
  have bad: "vo_errors vo \<noteq> [] \<longrightarrow>
      forceUnpack conv vo = Inl (ThrowErrors (vo_errors vo)) \<and> vo_isValid vo = (False, vo)"
    by (simp add: forceUnpack_errors)
  have good: "vo_errors vo = [] \<longrightarrow>
        (\<forall>kvs v. vo_props vo = JObj kvs \<and> map_of kvs ''value'' = Some v \<longrightarrow>
           forceUnpack conv vo = Inr v)
        \<and> (isDomainPrimitive (vo_props vo) = Inr False \<longrightarrow>
             forceUnpack conv vo = Inr (conv (vo_props vo)))
        \<and> (vo_props vo \<noteq> JUndefined \<and> vo_props vo \<noteq> JNull \<longrightarrow>
             (\<exists>v. forceUnpack conv vo = Inr v))"
  proof
    assume e: "vo_errors vo = []"
    have g1: "\<forall>kvs v. vo_props vo = JObj kvs \<and> map_of kvs ''value'' = Some v \<longrightarrow>
        forceUnpack conv vo = Inr v"
      by (simp add: forceUnpack_no_errors[OF e] internalUnpack_value)
    have g2: "isDomainPrimitive (vo_props vo) = Inr False \<longrightarrow>
        forceUnpack conv vo = Inr (conv (vo_props vo))"
      by (simp add: forceUnpack_no_errors[OF e] internalUnpack_def)
    have g3: "vo_props vo \<noteq> JUndefined \<and> vo_props vo \<noteq> JNull \<longrightarrow>
        (\<exists>v. forceUnpack conv vo = Inr v)"
      by (simp add: forceUnpack_no_errors[OF e] internalUnpack_returns)
    from g1 g2 g3 show "(\<forall>kvs v. vo_props vo = JObj kvs \<and> map_of kvs ''value'' = Some v \<longrightarrow>
           forceUnpack conv vo = Inr v)
        \<and> (isDomainPrimitive (vo_props vo) = Inr False \<longrightarrow>
             forceUnpack conv vo = Inr (conv (vo_props vo)))
        \<and> (vo_props vo \<noteq> JUndefined \<and> vo_props vo \<noteq> JNull \<longrightarrow>
             (\<exists>v. forceUnpack conv vo = Inr v))"
      by blast
  qed
  have new: "ValueObject_new validate p = Inr built \<longrightarrow>
        vo_props built = p
        \<and> (vo_errors built = [] \<longrightarrow> (\<exists>v. forceUnpack conv built = Inr v))
        \<and> (\<exists>errs. validate p = Inr errs
              \<and> (p = JObj [(''value'', JStr ''x'')] \<and> errs = [] \<longrightarrow>
                    forceUnpack conv built = Inr (JStr ''x''))
              \<and> (p = JObj [(''value'', JStr '''')] \<longrightarrow>
                    fst (vo_isValid built) = False
                    \<and> forceUnpack conv built =
                        Inl (ThrowErrors
                               (ArgumentNotProvidedException ''Properties cannot be empty'' # errs))))"
  proof
    assume built: "ValueObject_new validate p = Inr built"
    have p: "vo_props built = p"
      using ValueObject_new_errors[OF built] by simp
    have r: "\<exists>v. forceUnpack conv built = Inr v" if e: "vo_errors built = []"
      using ValueObject_new_not_nullish[OF built e] internalUnpack_returns[of built conv]
      by (simp add: forceUnpack_no_errors[OF e] p)
    obtain errs where errs: "validate p = Inr errs"
      and list: "vo_errors built =
        (if Guard_isEmpty p \<or> (isDomainPrimitive p = Inr True
                                \<and> (\<exists>v. getProp p ''value'' = Inr v \<and> Guard_isEmpty v))
         then [ArgumentNotProvidedException ''Properties cannot be empty''] else [])
        @ errs"
      using ValueObject_new_errors[OF built] by blast
    have x: "forceUnpack conv built = Inr (JStr ''x'')"
      if "p = JObj [(''value'', JStr ''x'')]" "errs = []"
      using that list by (simp add: forceUnpack_def internalUnpack_def p)
    have empty: "fst (vo_isValid built) = False
        \<and> forceUnpack conv built =
            Inl (ThrowErrors (ArgumentNotProvidedException ''Properties cannot be empty'' # errs))"
      if "p = JObj [(''value'', JStr '''')]"
      using that list by (simp add: forceUnpack_def vo_isValid_def)
    from p r errs x empty
    show "vo_props built = p
        \<and> (vo_errors built = [] \<longrightarrow> (\<exists>v. forceUnpack conv built = Inr v))
        \<and> (\<exists>errs. validate p = Inr errs
              \<and> (p = JObj [(''value'', JStr ''x'')] \<and> errs = [] \<longrightarrow>
                    forceUnpack conv built = Inr (JStr ''x''))
              \<and> (p = JObj [(''value'', JStr '''')] \<longrightarrow>
                    fst (vo_isValid built) = False
                    \<and> forceUnpack conv built =
                        Inl (ThrowErrors
                               (ArgumentNotProvidedException ''Properties cannot be empty'' # errs))))"
      by blast
  qed
  from bad good new show ?thesis by blast
qed

text \<open>Claim C5 at the example objects.\<close>

theorem forceUnpack_value_or_all_errors_witness:
  "ValueObject_new (\<lambda>p. Inr []) (JObj [(''value'', JStr ''x'')]) =
     Inr (ValueObject [] (JObj [(''value'', JStr ''x'')]) False)
   \<and> forceUnpack (\<lambda>p. p) (ValueObject [] (JObj [(''value'', JStr ''x'')]) False) = Inr (JStr ''x'')
   \<and> ValueObject_new (\<lambda>p. Inr [DomainException ''too short'']) (JObj [(''value'', JStr '''')]) =
       Inr (ValueObject [ArgumentNotProvidedException ''Properties cannot be empty'',
                         DomainException ''too short'']
              (JObj [(''value'', JStr '''')]) False)
   \<and> fst (vo_isValid
             (ValueObject [ArgumentNotProvidedException ''Properties cannot be empty'',
                           DomainException ''too short'']
                (JObj [(''value'', JStr '''')]) False)) = False
   \<and> forceUnpack (\<lambda>p. p)
        (ValueObject [ArgumentNotProvidedException ''Properties cannot be empty'',
                      DomainException ''too short'']
           (JObj [(''value'', JStr '''')]) False) =
       Inl (ThrowErrors [ArgumentNotProvidedException ''Properties cannot be empty'',
                         DomainException ''too short''])"
proof -
  let ?x = "ValueObject [] (JObj [(''value'', JStr ''x'')]) False"
  let ?e = "ValueObject [ArgumentNotProvidedException ''Properties cannot be empty'',
                         DomainException ''too short'']
              (JObj [(''value'', JStr '''')]) False"
  have x: "ValueObject_new (\<lambda>p. Inr []) (JObj [(''value'', JStr ''x'')]) = Inr ?x"
    by (simp add: ValueObject_new_def checkIfEmpty_def)
  have e: "ValueObject_new (\<lambda>p. Inr [DomainException ''too short'']) (JObj [(''value'', JStr '''')]) =
      Inr ?e"
    by (simp add: ValueObject_new_def checkIfEmpty_def vo_addError_def)
  have ux: "forceUnpack (\<lambda>p. p) ?x = Inr (JStr ''x'')"
    using x forceUnpack_value_or_all_errors
      [where vo = ?x and conv = "\<lambda>p. p" and validate = "\<lambda>p. Inr []"
         and p = "JObj [(''value'', JStr ''x'')]" and built = ?x]
    by simp
  have ue: "fst (vo_isValid ?e) = False \<and>
      forceUnpack (\<lambda>p. p) ?e =
        Inl (ThrowErrors [ArgumentNotProvidedException ''Properties cannot be empty'',
                          DomainException ''too short''])"
    using forceUnpack_value_or_all_errors
      [where vo = ?e and conv = "\<lambda>p. p" and validate = "\<lambda>p. Inr [DomainException ''too short'']"
         and p = "JObj [(''value'', JStr '''')]" and built = ?e]
    by simp
  from x e ux ue show ?thesis by simp
qed

text \<open>
  Claim C8. An entity built from a props object with more than 50 keys has the
  out-of-range error first in its error list; \<open>isValid()\<close> returns false and leaves the entity
  as it is, so \<open>equals\<close>, \<open>getPropsCopy\<close> and \<open>toObject\<close> are never attached and calling them is a
  \<open>TypeError\<close>. Empty props are recorded as an error of another kind (not provided), and so
  are props that are no object (invalid).
\<close>

theorem too_many_props_never_valid:
  assumes many: "create_props c = JObj kvs" "length kvs > 50"
    and built: "Entity_new cname validate now c = Inr ent"
  shows "(\<exists>errs. errors ent =
            ArgumentOutOfRangeException
              ''Entity props should not have more than 50 properties'' # errs)
         \<and> isValid ent = (False, ent)
         \<and> \<not> validEntityAttributes ent
         \<and> Entity_equals (snd (isValid ent)) other = Inl TypeError
         \<and> Entity_getPropsCopy conv ids (snd (isValid ent)) = Inl TypeError
         \<and> Entity_toObject conv ids (snd (isValid ent)) = Inl TypeError
         \<and> validateProps this (JObj []) =
             Inr (addError this (ArgumentNotProvidedException ''Entity props should not be empty''))
         \<and> validateProps this (JNum n) =
             Inr (addError this (ArgumentInvalidException ''Entity props should be an object''))"
proof -
  have len: "length kvs > MAX_PROPS"
    using many(2) by (simp add: MAX_PROPS_def)
  from built obtain errs where
    ent: "ent = \<lparr>constructor_name = cname,
                 errors = ArgumentOutOfRangeException
                            ''Entity props should not have more than 50 properties'' # errs,
                 entity_id = create_id c,
                 createdAt = (case create_createdAt c of None \<Rightarrow> now | Some d \<Rightarrow> d),
                 updatedAt = (case create_updatedAt c of None \<Rightarrow> now | Some d \<Rightarrow> d),
                 props = JObj kvs, validEntityAttributes = False\<rparr>"
    by (auto simp add: Entity_new_def many(1) validateProps_too_many[OF len] addError_def Let_def
        split: sum.splits)
  have e: "\<exists>errs. errors ent =
      ArgumentOutOfRangeException ''Entity props should not have more than 50 properties'' # errs"
    by (simp add: ent)
  have v: "isValid ent = (False, ent)"
    by (rule isValid_False) (simp add: ent)
  have a: "\<not> validEntityAttributes ent"
    by (simp add: ent)
  show ?thesis
    using e a validateProps_kinds[of this]
    by (simp add: v Entity_equals_def Entity_getPropsCopy_def Entity_toObject_def)
qed

text \<open>Claim C8 at the example objects.\<close>

theorem too_many_props_never_valid_witness:
  "create_props \<lparr>create_id = 0, create_props = JObj example_many_props,
                  create_createdAt = None, create_updatedAt = Some 7\<rparr> = JObj example_many_props
   \<and> length example_many_props > 50
   \<and> Entity_new ''Customer'' (\<lambda>this. Inr []) 5
        \<lparr>create_id = 0, create_props = JObj example_many_props,
         create_createdAt = None, create_updatedAt = Some 7\<rparr> =
       Inr ((example_entity 0 (JObj example_many_props))
              \<lparr>errors := [ArgumentOutOfRangeException
                             ''Entity props should not have more than 50 properties''],
               createdAt := 5, updatedAt := 7\<rparr>)
   \<and> fst (isValid ((example_entity 0 (JObj example_many_props))
              \<lparr>errors := [ArgumentOutOfRangeException
                             ''Entity props should not have more than 50 properties''],
               createdAt := 5, updatedAt := 7\<rparr>)) = False
   \<and> Entity_equals (snd (isValid ((example_entity 0 (JObj example_many_props))
              \<lparr>errors := [ArgumentOutOfRangeException
                             ''Entity props should not have more than 50 properties''],
               createdAt := 5, updatedAt := 7\<rparr>))) (IsUndefined :: Entity nullable) = Inl TypeError"
proof -
  let ?c = "\<lparr>create_id = 0, create_props = JObj example_many_props,
             create_createdAt = None, create_updatedAt = Some 7\<rparr>"
  let ?ent = "(example_entity 0 (JObj example_many_props))
              \<lparr>errors := [ArgumentOutOfRangeException
                             ''Entity props should not have more than 50 properties''],
               createdAt := 5, updatedAt := 7\<rparr>"
  have p: "create_props ?c = JObj example_many_props"
    by simp
  have n: "length example_many_props > 50"
    by (simp add: example_many_props_def)
  have ne: "example_many_props \<noteq> []"
    using n by auto
  have b: "Entity_new ''Customer'' (\<lambda>this. Inr []) 5 ?c = Inr ?ent"
    using n ne
    by (simp add: Entity_new_def validateProps_def MAX_PROPS_def addError_def example_entity_def)
  show ?thesis
    using p n b
      too_many_props_never_valid
        [OF p n b, where other = "IsUndefined :: Entity nullable" and conv = "\<lambda>p. p"
           and ids = example_ids and this = "example_entity 0 JNull" and n = 0]
    by (elim conjE) simp
qed

text \<open>
  Claim C9. Constructing a domain event from an empty properties bag raises
  \<open>ArgumentNotProvidedException\<close> from the constructor itself; no event object comes back.
  Any empty argument makes the constructor raise (for \<open>null\<close> and \<open>undefined\<close> the read of
  \<open>props.metadata\<close> raises first). A value object built from the same empty bag comes back,
  with the error recorded in it.
\<close>

theorem DomainEvent_new_fails_at_once:
  "DomainEvent_new conv cname supers eid (JObj []) =
     Inl (ThrowException (ArgumentNotProvidedException (cname @ '' props should not be empty'')))
   \<and> (Guard_isEmpty p \<longrightarrow>
        DomainEvent_new conv cname supers eid p =
          (if p = JUndefined \<or> p = JNull then Inl TypeError
           else Inl (ThrowException
                       (ArgumentNotProvidedException (cname @ '' props should not be empty'')))))
   \<and> (validate (JObj []) = Inr errs \<longrightarrow>
        ValueObject_new validate (JObj []) =
          Inr (ValueObject (ArgumentNotProvidedException ''Properties cannot be empty'' # errs)
                 (JObj []) False))"
  by (cases p) (simp_all add: DomainEvent_new_def ValueObject_new_def checkIfEmpty_def vo_addError_def)

text \<open>Claim C9 at the example objects.\<close>

theorem DomainEvent_new_fails_at_once_witness:
  "Guard_isEmpty (JObj []) \<and> Guard_isEmpty (JStr '''') \<and> Guard_isEmpty JNull
   \<and> DomainEvent_new (\<lambda>p. p) ''OrderCreated'' [''DomainEvent'', ''Event''] ''e-1'' (JObj []) =
       Inl (ThrowException (ArgumentNotProvidedException ''OrderCreated props should not be empty''))
   \<and> DomainEvent_new (\<lambda>p. p) ''OrderCreated'' [''DomainEvent'', ''Event''] ''e-1'' (JStr '''') =
       Inl (ThrowException (ArgumentNotProvidedException ''OrderCreated props should not be empty''))
   \<and> DomainEvent_new (\<lambda>p. p) ''OrderCreated'' [''DomainEvent'', ''Event''] ''e-1'' JNull =
       Inl TypeError
   \<and> ValueObject_new (\<lambda>p. Inr []) (JObj []) =
       Inr (ValueObject [ArgumentNotProvidedException ''Properties cannot be empty''] (JObj []) False)"
  using
    DomainEvent_new_fails_at_once
      [of "\<lambda>p. p" "''OrderCreated''" "[''DomainEvent'', ''Event'']" "''e-1''" "JStr ''''"
          "\<lambda>p. Inr []" "[]"]
    DomainEvent_new_fails_at_once
      [of "\<lambda>p. p" "''OrderCreated''" "[''DomainEvent'', ''Event'']" "''e-1''" "JNull"
          "\<lambda>p. Inr []" "[]"]
  by simp

section \<open>Routing\<close>

text \<open>
  Claim C6. \<open>route(e)\<close> makes one \<open>dispatch\<close> call, on the committed-events bus when
  \<open>e.isCommitted()\<close> is true and on the uncommitted-events bus when it is false; every other
  bus receives nothing, and the event is not changed.
\<close>

theorem route_by_commit_status:
  "let (t, w') = route e r w ev
   in (isCommitted w ev \<longrightarrow>
         dispatched w' (committedEventBus r) =
           dispatched w (committedEventBus r) @ [(ev, events w ev)]
         \<and> (\<forall>bus. bus \<noteq> committedEventBus r \<longrightarrow> dispatched w' bus = dispatched w bus)
         \<and> t = dispatchOutcome e w (committedEventBus r) ev)
      \<and> (\<not> isCommitted w ev \<longrightarrow>
         dispatched w' (uncommittedEventBus r) =
           dispatched w (uncommittedEventBus r) @ [(ev, events w ev)]
         \<and> (\<forall>bus. bus \<noteq> uncommittedEventBus r \<longrightarrow> dispatched w' bus = dispatched w bus)
         \<and> t = dispatchOutcome e w (uncommittedEventBus r) ev)
      \<and> events w' = events w \<and> arrays w' = arrays w \<and> debugged w' = debugged w"
  by (simp add: route_def dispatch_def)

text \<open>Claim C6 at the example objects.\<close>

theorem route_by_commit_status_witness:
  "\<not> isCommitted (example_world []) 1
   \<and> isCommitted (commit (example_world []) 1) 1
   \<and> (let (t, w') = route example_env \<lparr>uncommittedEventBus = 5, committedEventBus = 6\<rparr>
                        (example_world []) 1
       in dispatched w' 5 = [(1, example_events 1)] \<and> dispatched w' 6 = [])
   \<and> (let (t, w') = route example_env \<lparr>uncommittedEventBus = 5, committedEventBus = 6\<rparr>
                        (commit (example_world []) 1) 1
       in dispatched w' 6 = [(1, (example_events 1)\<lparr>committed := True\<rparr>)] \<and> dispatched w' 5 = [])"
  using
    route_by_commit_status [of example_env "\<lparr>uncommittedEventBus = 5, committedEventBus = 6\<rparr>"
      "example_world []" 1]
    route_by_commit_status [of example_env "\<lparr>uncommittedEventBus = 5, committedEventBus = 6\<rparr>"
      "commit (example_world []) 1" 1]
  by (simp add: isCommitted_def commit_def split_def Let_def example_world_def example_events_def)

end
